theory Spec2Isabelle
  imports Complex_Main "HOL-Library.Word" "HOL-Library.Signed_Division"
begin

section \<open>The guarded counter (class \<^verbatim>\<open>ThreadSafeCounter\<close> of \<^verbatim>\<open>shared_mutex.cpp\<close>)\<close>

subsection \<open>The reader-writer lock\<close>

text \<open>
  Modelled from the spec: \<^verbatim>\<open>std::shared_mutex\<close> is a type of the C++ standard library, so
  its declaration is not in the source. The glossary of the specification describes it as
  a mutual-exclusion primitive with a shared mode (several holders at once) and an exclusive
  mode (a single holder), the two modes excluding each other. Its state is who holds it:
  whether some thread has exclusive ownership, and how many threads have shared ownership.

  An acquisition that cannot be granted blocks the caller. The functions below describe one
  call executed on its own, with no other thread running in between, so a call that has to
  wait never returns: that outcome is the value \<open>None\<close>.
\<close>

record shared_mutex =
  exclusive :: bool
  shared :: nat

text \<open>The default constructor of the lock: nobody holds it.\<close>

definition shared_mutex_ctor :: shared_mutex where
  "shared_mutex_ctor = \<lparr>exclusive = False, shared = 0\<rparr>"

text \<open>\<^verbatim>\<open>lock()\<close>: exclusive ownership, granted when there is no holder of either kind.\<close>

definition lock :: "shared_mutex \<Rightarrow> shared_mutex option" where
  "lock m = (if \<not> exclusive m \<and> shared m = 0 then Some (m\<lparr>exclusive := True\<rparr>) else None)"

definition unlock :: "shared_mutex \<Rightarrow> shared_mutex" where
  "unlock m = m\<lparr>exclusive := False\<rparr>"

text \<open>\<^verbatim>\<open>lock_shared()\<close>: shared ownership, granted when there is no exclusive holder.\<close>

definition lock_shared :: "shared_mutex \<Rightarrow> shared_mutex option" where
  "lock_shared m = (if \<not> exclusive m then Some (m\<lparr>shared := Suc (shared m)\<rparr>) else None)"

definition unlock_shared :: "shared_mutex \<Rightarrow> shared_mutex" where
  "unlock_shared m = m\<lparr>shared := shared m - 1\<rparr>"

subsection \<open>The counter\<close>

text \<open>
  The two data members of the class, \<^verbatim>\<open>mutex_\<close> and \<^verbatim>\<open>value_\<close>. A name cannot end in an
  underscore here, hence the suffix \<open>m\<close>. The member \<^verbatim>\<open>value_\<close> is an \<^verbatim>\<open>unsigned int\<close>, 32 bits
  wide on the usual data models (ILP32, LP64, LLP64): a \<open>32 word\<close>, whose arithmetic is
  modulo \<open>2 ^ 32\<close> as that of \<^verbatim>\<open>unsigned int\<close> is.
\<close>

type_synonym unsigned_int = "32 word"

record ThreadSafeCounter =
  mutex_m :: shared_mutex
  value_m :: unsigned_int

text \<open>
  \<^verbatim>\<open>ThreadSafeCounter() = default;\<close> and the object is created by the declaration
  \<^verbatim>\<open>ThreadSafeCounter counter;\<close> in \<^verbatim>\<open>main\<close>. That is a default-initialisation: it runs the
  default constructor of \<^verbatim>\<open>mutex_\<close> and does nothing to \<^verbatim>\<open>value_\<close>, which has no initialiser
  at its declaration (\<^verbatim>\<open>unsigned int value_;\<close>). The member keeps whatever the storage of the
  object held before; that content is the parameter \<open>mem\<close>.
\<close>

definition ThreadSafeCounter_ctor :: "unsigned_int \<Rightarrow> ThreadSafeCounter" where
  "ThreadSafeCounter_ctor mem = \<lparr>mutex_m = shared_mutex_ctor, value_m = mem\<rparr>"

text \<open>
  The three member functions. Each one constructs a lock object on \<^verbatim>\<open>mutex_\<close> as its first
  statement (\<^verbatim>\<open>std::shared_lock\<close> acquires with \<^verbatim>\<open>lock_shared()\<close>, \<^verbatim>\<open>std::unique_lock\<close> with
  \<^verbatim>\<open>lock()\<close>), and the destructor of that object releases the lock when the function
  returns. The functions return the counter as the call leaves it; \<^verbatim>\<open>get\<close> is a \<^verbatim>\<open>const\<close>
  member, but \<^verbatim>\<open>mutex_\<close> is \<^verbatim>\<open>mutable\<close> and the call does lock and unlock it. The lines that
  \<^verbatim>\<open>get\<close> and \<^verbatim>\<open>increment\<close> write to \<^verbatim>\<open>std::cout\<close> read \<^verbatim>\<open>value_\<close> and change no member; the
  output stream is not part of the model.
\<close>

definition get :: "ThreadSafeCounter \<Rightarrow> (unsigned_int \<times> ThreadSafeCounter) option" where
  "get c =
     (case lock_shared (mutex_m c) of
        None \<Rightarrow> None
      | Some m \<Rightarrow>
          let c1 = c\<lparr>mutex_m := m\<rparr>;
              r = value_m c1
          in Some (r, c1\<lparr>mutex_m := unlock_shared (mutex_m c1)\<rparr>))"

definition increment :: "ThreadSafeCounter \<Rightarrow> ThreadSafeCounter option" where
  "increment c =
     (case lock (mutex_m c) of
        None \<Rightarrow> None
      | Some m \<Rightarrow>
          let c1 = c\<lparr>mutex_m := m\<rparr>;
              c2 = c1\<lparr>value_m := value_m c1 + 1\<rparr>
          in Some (c2\<lparr>mutex_m := unlock (mutex_m c2)\<rparr>))"

definition reset :: "ThreadSafeCounter \<Rightarrow> ThreadSafeCounter option" where
  "reset c =
     (case lock (mutex_m c) of
        None \<Rightarrow> None
      | Some m \<Rightarrow>
          let c1 = c\<lparr>mutex_m := m\<rparr>;
              c2 = c1\<lparr>value_m := 0\<rparr>
          in Some (c2\<lparr>mutex_m := unlock (mutex_m c2)\<rparr>))"

text \<open>
  The loop of the writer tasks in \<^verbatim>\<open>main\<close>,
  \<^verbatim>\<open>for (int i = 0; i < 1000; ++i) counter.increment();\<close>, with the number of rounds as a
  parameter: \<open>k\<close> calls of \<^verbatim>\<open>increment\<close>, one after the other.
\<close>

fun increment_counter :: "nat \<Rightarrow> ThreadSafeCounter \<Rightarrow> ThreadSafeCounter option" where
  "increment_counter 0 c = Some c"
| "increment_counter (Suc k) c =
     (case increment c of None \<Rightarrow> None | Some c' \<Rightarrow> increment_counter k c')"

text \<open>The lock is free: no exclusive holder and no shared holder.\<close>

definition unlocked :: "shared_mutex \<Rightarrow> bool" where
  "unlocked m = (\<not> exclusive m \<and> shared m = 0)"

subsection \<open>Threads\<close>

text \<open>
  The calling convention of \<^verbatim>\<open>main\<close>: several threads call the member functions of one
  counter. A call is not atomic. It has three steps: the construction of the lock object,
  which acquires \<^verbatim>\<open>mutex_\<close> (or leaves the thread waiting); the statements of the body;
  the destruction of the lock object, which releases \<^verbatim>\<open>mutex_\<close>. Steps of different threads
  interleave in any order. A thread is at one of three places: outside any call, in a call
  whose lock object is constructed and whose body is still to run, or in a call whose body
  has run and whose lock object is still to be destroyed.
\<close>

datatype call = Get | Increment | Reset

datatype place = Outside | Entered call | Leaving call

text \<open>
  A thread: where it is, the calls it still has to make, and the values its calls of
  \<^verbatim>\<open>get\<close> have returned, the latest first.
\<close>

record thread =
  pc :: place
  todo :: "call list"
  got :: "unsigned_int list"

record system =
  counter :: ThreadSafeCounter
  threads :: "thread list"

text \<open>
  The first statement of each member function: \<^verbatim>\<open>std::shared_lock lock(mutex_)\<close> in \<^verbatim>\<open>get\<close>,
  \<^verbatim>\<open>std::unique_lock lock(mutex_)\<close> in \<^verbatim>\<open>increment\<close> and \<^verbatim>\<open>reset\<close>; and the destructor of that lock
  object.
\<close>

fun acquire :: "call \<Rightarrow> shared_mutex \<Rightarrow> shared_mutex option" where
  "acquire Get m = lock_shared m"
| "acquire Increment m = lock m"
| "acquire Reset m = lock m"

fun release :: "call \<Rightarrow> shared_mutex \<Rightarrow> shared_mutex" where
  "release Get m = unlock_shared m"
| "release Increment m = unlock m"
| "release Reset m = unlock m"

text \<open>
  The statements between the two: \<^verbatim>\<open>return value_;\<close> (the value read is the result of the
  call), \<^verbatim>\<open>++value_;\<close> and \<^verbatim>\<open>value_ = 0;\<close>.
\<close>

fun body :: "call \<Rightarrow> ThreadSafeCounter \<Rightarrow> thread \<Rightarrow> ThreadSafeCounter \<times> thread" where
  "body Get c t = (c, t\<lparr>got := value_m c # got t\<rparr>)"
| "body Increment c t = (c\<lparr>value_m := value_m c + 1\<rparr>, t)"
| "body Reset c t = (c\<lparr>value_m := 0\<rparr>, t)"

text \<open>
  One step of thread \<open>i\<close>. A thread that is outside starts its next call by acquiring the
  lock; when the lock is not granted the thread waits, and the state is as before. There
  is no step for a thread that does not exist or has no call left.
\<close>

definition thread_step :: "nat \<Rightarrow> system \<Rightarrow> system" where
  "thread_step i s =
     (if length (threads s) \<le> i then s
      else
        let t = threads s ! i; c = counter s in
        case pc t of
          Outside \<Rightarrow>
            (case todo t of
               [] \<Rightarrow> s
             | f # fs \<Rightarrow>
                 (case acquire f (mutex_m c) of
                    None \<Rightarrow> s
                  | Some m \<Rightarrow>
                      \<lparr>counter = c\<lparr>mutex_m := m\<rparr>,
                       threads = (threads s)[i := t\<lparr>pc := Entered f, todo := fs\<rparr>]\<rparr>))
        | Entered f \<Rightarrow>
            (let (c', t') = body f c t in
             \<lparr>counter = c', threads = (threads s)[i := t'\<lparr>pc := Leaving f\<rparr>]\<rparr>)
        | Leaving f \<Rightarrow>
            \<lparr>counter = c\<lparr>mutex_m := release f (mutex_m c)\<rparr>,
             threads = (threads s)[i := t\<lparr>pc := Outside\<rparr>]\<rparr>)"

text \<open>
  An interleaving is a schedule: the list of the threads that take the successive steps.
  The system starts with the counter as its constructor leaves it and with every thread
  outside, each with the calls it is going to make.
\<close>

definition run :: "nat list \<Rightarrow> system \<Rightarrow> system" where
  "run sched s = foldl (\<lambda>s i. thread_step i s) s sched"

definition system_init :: "unsigned_int \<Rightarrow> call list list \<Rightarrow> system" where
  "system_init mem progs =
     \<lparr>counter = ThreadSafeCounter_ctor mem,
      threads = map (\<lambda>p. \<lparr>pc = Outside, todo = p, got = []\<rparr>) progs\<rparr>"

text \<open>
  A thread is inside a writer's critical section when it is in \<^verbatim>\<open>increment\<close> or \<^verbatim>\<open>reset\<close>
  between the acquisition and the release of the lock, and inside a reader's when it is
  there in \<^verbatim>\<open>get\<close>. The two counters below are the instrumentation the specification speaks
  of: the number of threads inside a critical section of each kind.
\<close>

fun in_writer :: "place \<Rightarrow> bool" where
  "in_writer Outside = False"
| "in_writer (Entered f) = (f = Increment \<or> f = Reset)"
| "in_writer (Leaving f) = (f = Increment \<or> f = Reset)"

fun in_reader :: "place \<Rightarrow> bool" where
  "in_reader Outside = False"
| "in_reader (Entered f) = (f = Get)"
| "in_reader (Leaving f) = (f = Get)"

definition writers :: "system \<Rightarrow> nat" where
  "writers s = length (filter (\<lambda>t. in_writer (pc t)) (threads s))"

definition readers :: "system \<Rightarrow> nat" where
  "readers s = length (filter (\<lambda>t. in_reader (pc t)) (threads s))"

text \<open>
  The state of the lock agrees with the places of the threads: it is held exclusively
  exactly when one writer is inside, its number of shared holders is the number of readers
  inside, and writers and readers are not inside together.
\<close>

definition lock_agrees :: "system \<Rightarrow> bool" where
  "lock_agrees s =
     (writers s = (if exclusive (mutex_m (counter s)) then 1 else 0) \<and>
      readers s = shared (mutex_m (counter s)) \<and>
      (writers s = 0 \<or> readers s = 0))"

section \<open>The interval timer (class template \<^verbatim>\<open>Timer\<close> of \<^verbatim>\<open>shared_mutex.cpp\<close>)\<close>

subsection \<open>Clock, time points and durations\<close>

text \<open>
  Modelled from the spec: the clock \<^verbatim>\<open>CLOCK_T\<close> (by default \<^verbatim>\<open>std::chrono::steady_clock\<close>) and the
  types of \<^verbatim>\<open>std::chrono\<close> belong to the standard library. The specification asks for a
  monotonic clock. A time point is the number of ticks of the clock since its epoch, a
  signed integer; a reading of \<^verbatim>\<open>CLOCK_T::now()\<close> is an input of the call that takes it
  (the parameter \<open>now\<close> below). The library counts in a signed type of at least 64 bits
  and leaves overflow undefined; the model counts in \<open>int\<close> and says nothing about
  executions that overflow.

  A duration is a count of units. The unit \<^verbatim>\<open>T\<close> of the timer enters the code only through
  \<^verbatim>\<open>std::chrono::duration_cast<T>\<close>, and that conversion depends only on the conversion factor
  \<^verbatim>\<open>CF = ratio_divide<CLOCK_T::period, T::period>\<close>, a positive fraction in lowest terms: for
  a clock that ticks in nanoseconds and \<^verbatim>\<open>T = std::chrono::milliseconds\<close> it is
  \<open>1 / 1000000\<close>. A unit is given by this factor. Only units with an integral
  representation are modelled, as \<^verbatim>\<open>Timer<std::chrono::milliseconds>\<close> in \<^verbatim>\<open>main\<close> is; the
  default \<^verbatim>\<open>std::chrono::duration<double>\<close> converts in floating point.
\<close>

type_synonym time_point = int

datatype duration = Duration (count: int)

record duration_unit =
  CF_num :: nat
  CF_den :: nat



text \<open>
  \<^verbatim>\<open>duration_cast\<close> as the C++ standard defines it (time.duration.cast), by the four cases
  of the conversion factor, in integer arithmetic. The division of C++ truncates towards
  zero: it is \<open>sdiv\<close>, not the \<open>div\<close> of HOL, which rounds downwards.
\<close>

definition duration_cast :: "duration_unit \<Rightarrow> int \<Rightarrow> duration" where
  "duration_cast T d =
     (if CF_num T = 1 \<and> CF_den T = 1 then Duration d
      else if CF_num T \<noteq> 1 \<and> CF_den T = 1 then Duration (d * int (CF_num T))
      else if CF_num T = 1 \<and> CF_den T \<noteq> 1 then Duration (d sdiv int (CF_den T))
      else Duration (d * int (CF_num T) sdiv int (CF_den T)))"

subsection \<open>The timer\<close>

text \<open>The data members \<^verbatim>\<open>start_\<close> and \<^verbatim>\<open>end_\<close>, both time points of the clock.\<close>

record Timer =
  start_m :: time_point
  end_m :: time_point

text \<open>\<^verbatim>\<open>Timer() noexcept : start_{CLOCK_T::now()}, end_{start_} {}\<close>\<close>

definition Timer_ctor :: "time_point \<Rightarrow> Timer" where
  "Timer_ctor now = (let s = now in \<lparr>start_m = s, end_m = s\<rparr>)"

text \<open>
  \<^verbatim>\<open>start_ = end_ = CLOCK_T::now(); return *this;\<close> The assignment stores the reading in
  \<^verbatim>\<open>end_\<close> and then the new \<^verbatim>\<open>end_\<close> in \<^verbatim>\<open>start_\<close>. The function returns a reference to the
  object it was called on: the model returns that object, as the call leaves it.
\<close>

definition tic :: "Timer \<Rightarrow> time_point \<Rightarrow> Timer" where
  "tic t now = (let t1 = t\<lparr>end_m := now\<rparr> in t1\<lparr>start_m := end_m t1\<rparr>)"

text \<open>\<^verbatim>\<open>end_ = CLOCK_T::now(); return *this;\<close>\<close>

definition toc :: "Timer \<Rightarrow> time_point \<Rightarrow> Timer" where
  "toc t now = t\<lparr>end_m := now\<rparr>"

text \<open>
  \<^verbatim>\<open>static_cast<double>\<close> of a count. A \<^verbatim>\<open>double\<close> has a significand of 53 bits, so it holds
  every integer of magnitude up to \<open>2 ^ 53\<close>; a larger count is rounded to the nearest
  integer that fits in 53 significant bits, a tie going to the one whose last significant
  bit is 0 (the default rounding of IEEE 754). The result is given as the real number
  that the \<^verbatim>\<open>double\<close> denotes. \<open>bit_length n\<close> is the number of bits of \<open>n\<close>.
\<close>

fun bit_length :: "nat \<Rightarrow> nat" where
  "bit_length n = (if n = 0 then 0 else Suc (bit_length (n div 2)))"

declare bit_length.simps [simp del]

definition static_cast_double :: "int \<Rightarrow> real" where
  "static_cast_double i =
     (if \<bar>i\<bar> \<le> 2 ^ 53 then real_of_int i
      else
        let e = bit_length (nat \<bar>i\<bar>) - 53;
            q = \<bar>i\<bar> div 2 ^ e;
            r = \<bar>i\<bar> mod 2 ^ e;
            half = 2 ^ (e - 1);
            q' = (if half < r \<or> (r = half \<and> odd q) then q + 1 else q)
        in real_of_int (sgn i * (q' * 2 ^ e)))"

text \<open>
  The two accessors are \<^verbatim>\<open>const\<close> members of a class with no \<^verbatim>\<open>mutable\<close> member: they
  read the timer and return a value, and are functions of the timer. \<^verbatim>\<open>get_duration\<close>
  returns the duration; \<^verbatim>\<open>tics\<close> returns its count, converted to \<^verbatim>\<open>double\<close>.
\<close>

definition get_duration :: "duration_unit \<Rightarrow> Timer \<Rightarrow> duration" where
  "get_duration U t = duration_cast U (end_m t - start_m t)"

definition tics :: "duration_unit \<Rightarrow> Timer \<Rightarrow> real" where
  "tics T t = static_cast_double (count (duration_cast T (end_m t - start_m t)))"



text \<open>
  A use of a timer: after its construction, a sequence of calls of \<^verbatim>\<open>tic\<close> and \<^verbatim>\<open>toc\<close>, each
  with the reading of the clock it takes.
\<close>

datatype timer_op = Tic time_point | Toc time_point

fun reading :: "timer_op \<Rightarrow> time_point" where
  "reading (Tic now) = now"
| "reading (Toc now) = now"

fun timer_call :: "Timer \<Rightarrow> timer_op \<Rightarrow> Timer" where
  "timer_call t (Tic now) = tic t now"
| "timer_call t (Toc now) = toc t now"

definition timer_calls :: "time_point \<Rightarrow> timer_op list \<Rightarrow> Timer" where
  "timer_calls now0 cs = foldl timer_call (Timer_ctor now0) cs"

section \<open>Properties of the guarded counter\<close>

subsection \<open>What a single call does\<close>

lemma increment_unlocked:
  "unlocked (mutex_m c) \<Longrightarrow> increment c = Some (c\<lparr>value_m := value_m c + 1\<rparr>)"
  by (simp add: increment_def lock_def unlocked_def unlock_def)

lemma increment_Some:
  "increment c = Some c' \<Longrightarrow> unlocked (mutex_m c) \<and> c' = c\<lparr>value_m := value_m c + 1\<rparr>"
  by (auto simp: increment_def lock_def unlocked_def unlock_def split: if_splits)

lemma reset_unlocked:
  "unlocked (mutex_m c) \<Longrightarrow> reset c = Some (c\<lparr>value_m := 0\<rparr>)"
  by (simp add: reset_def lock_def unlocked_def unlock_def)

lemma reset_Some:
  "reset c = Some c' \<Longrightarrow> unlocked (mutex_m c) \<and> c' = c\<lparr>value_m := 0\<rparr>"
  by (auto simp: reset_def lock_def unlocked_def unlock_def split: if_splits)

lemma get_no_writer:
  "\<not> exclusive (mutex_m c) \<Longrightarrow> get c = Some (value_m c, c)"
  by (simp add: get_def lock_shared_def unlock_shared_def)

lemma get_Some:
  "get c = Some (r, c') \<Longrightarrow> \<not> exclusive (mutex_m c) \<and> r = value_m c \<and> c' = c"
  by (auto simp: get_def lock_shared_def unlock_shared_def split: if_splits)

lemma ctor_unlocked: "unlocked (mutex_m (ThreadSafeCounter_ctor mem))"
  by (simp add: ThreadSafeCounter_ctor_def shared_mutex_ctor_def unlocked_def)

text \<open>
  Every call of the writer loop finds the lock free, because the call before it released
  it; after \<open>k\<close> rounds the value has grown by \<open>k\<close>, in the arithmetic of \<^verbatim>\<open>unsigned int\<close>.
\<close>

lemma increment_counter_unlocked:
  "unlocked (mutex_m c) \<Longrightarrow>
   increment_counter k c = Some (c\<lparr>value_m := value_m c + of_nat k\<rparr>)"
proof (induction k arbitrary: c)
  case 0
  then show ?case by simp
next
  case (Suc k)
  have "unlocked (mutex_m (c\<lparr>value_m := value_m c + 1\<rparr>))"
    using Suc.prems by simp
  from Suc.IH [OF this] Suc.prems show ?case
    by (simp add: increment_unlocked add.assoc)
qed

lemma increment_counter_Some:
  "increment_counter k c = Some c' \<Longrightarrow> c' = c\<lparr>value_m := value_m c + of_nat k\<rparr>"
proof (induction k arbitrary: c)
  case 0
  then show ?case by simp
next
  case (Suc k)
  from Suc.prems obtain c1 where 1: "increment c = Some c1"
    and 2: "increment_counter k c1 = Some c'"
    by (auto split: option.splits)
  from 1 have "c1 = c\<lparr>value_m := value_m c + 1\<rparr>" by (simp add: increment_Some)
  with Suc.IH [OF 2] show ?case by (simp add: add.assoc)
qed

lemma increment_counter_wraps_round:
  "increment_counter 4294967296 (ThreadSafeCounter_ctor 0) = Some (ThreadSafeCounter_ctor 0)"
proof -
  have "unlocked (mutex_m (ThreadSafeCounter_ctor 0))" by (rule ctor_unlocked)
  then have "increment_counter 4294967296 (ThreadSafeCounter_ctor 0)
      = Some ((ThreadSafeCounter_ctor 0)
          \<lparr>value_m := value_m (ThreadSafeCounter_ctor 0) + of_nat 4294967296\<rparr>)"
    by (rule increment_counter_unlocked)
  then show ?thesis by (simp add: ThreadSafeCounter_ctor_def)
qed

subsection \<open>Count correctness\<close>

text \<open>
  Claim C1, as the code has it. Take a counter whose value is 0 and let \<open>K\<close> calls of
  \<^verbatim>\<open>increment\<close> run to completion one after the other, with no call of \<^verbatim>\<open>reset\<close>. If the
  lock is free at the start, all \<open>K\<close> calls return and so does the call of \<^verbatim>\<open>get\<close> that
  follows. Whenever the calls have returned, the number that \<^verbatim>\<open>get\<close> returns is \<open>K\<close> modulo
  \<open>2 ^ 32\<close>; so it is exactly \<open>K\<close> whenever \<open>K < 2 ^ 32\<close>. The counter is an
  \<^verbatim>\<open>unsigned int\<close> and cannot hold a larger count.
\<close>

theorem count_correctness_mod:
  assumes "value_m c = 0"
  shows "(unlocked (mutex_m c) \<longrightarrow>
           (\<exists>c' r c''. increment_counter K c = Some c' \<and> get c' = Some (r, c''))) \<and>
         (\<forall>c' r c''. increment_counter K c = Some c' \<and> get c' = Some (r, c'') \<longrightarrow>
            unat r = K mod 2 ^ 32 \<and> (K < 2 ^ 32 \<longrightarrow> unat r = K))"
proof (intro conjI impI allI)
  let ?c' = "c\<lparr>value_m := value_m c + of_nat K\<rparr>"
  assume u: "unlocked (mutex_m c)"
  then have 1: "increment_counter K c = Some ?c'" by (rule increment_counter_unlocked)
  have "\<not> exclusive (mutex_m ?c')" using u by (simp add: unlocked_def)
  then have "get ?c' = Some (value_m ?c', ?c')" by (rule get_no_writer)
  with 1 show "\<exists>c' r c''. increment_counter K c = Some c' \<and> get c' = Some (r, c'')"
    by blast
next
  fix c' r c''
  assume h: "increment_counter K c = Some c' \<and> get c' = Some (r, c'')"
  then have "c' = c\<lparr>value_m := value_m c + of_nat K\<rparr>" by (simp add: increment_counter_Some)
  moreover from h have "r = value_m c'" by (simp add: get_Some)
  ultimately have "r = of_nat K" using assms by simp
  then show m: "unat r = K mod 2 ^ 32" by (simp add: unat_of_nat)
  assume "K < 2 ^ 32"
  with m show "unat r = K" by simp
qed

theorem count_correctness_mod_witness:
  "value_m (ThreadSafeCounter_ctor 0) = 0 \<and> unlocked (mutex_m (ThreadSafeCounter_ctor 0)) \<and>
   increment_counter 3 (ThreadSafeCounter_ctor 0) = Some (ThreadSafeCounter_ctor 3) \<and>
   get (ThreadSafeCounter_ctor 3) = Some (3, ThreadSafeCounter_ctor 3) \<and>
   unat (3 :: unsigned_int) = 3 mod 2 ^ 32 \<and> (3::nat) < 2 ^ 32 \<and> unat (3 :: unsigned_int) = 3"
proof -
  have v: "value_m (ThreadSafeCounter_ctor 0) = 0" by (simp add: ThreadSafeCounter_ctor_def)
  have i: "increment_counter 3 (ThreadSafeCounter_ctor 0) = Some (ThreadSafeCounter_ctor 3)"
    by (simp add: numeral_3_eq_3 increment_def lock_def unlock_def ThreadSafeCounter_ctor_def
        shared_mutex_ctor_def)
  have g: "get (ThreadSafeCounter_ctor 3) = Some (3, ThreadSafeCounter_ctor 3)"
    by (simp add: get_def lock_shared_def unlock_shared_def ThreadSafeCounter_ctor_def
        shared_mutex_ctor_def)
  from count_correctness_mod [OF v, of 3] i g show ?thesis
    by (simp add: ctor_unlocked v)
qed

text \<open>
  Claim C1 as it is written, for every \<open>K\<close>, fails at \<open>K = 2 ^ 32 = 4294967296\<close>: after
  that many increments of a counter that started at 0 the value is 0 again, and \<^verbatim>\<open>get\<close>
  returns 0, not 4294967296.
\<close>

theorem count_correctness_counterexample:
  "map_option (\<lambda>(r, c). unat r)
     (Option.bind (increment_counter 4294967296 (ThreadSafeCounter_ctor 0)) get) = Some 0
   \<and> map_option (\<lambda>(r, c). unat r)
     (Option.bind (increment_counter 4294967296 (ThreadSafeCounter_ctor 0)) get)
     \<noteq> Some 4294967296"
proof -
  have "get (ThreadSafeCounter_ctor 0) = Some (0, ThreadSafeCounter_ctor 0)"
    by (simp add: get_no_writer ThreadSafeCounter_ctor_def shared_mutex_ctor_def)
  then show ?thesis by (simp add: increment_counter_wraps_round)
qed

subsection \<open>The initial value\<close>

text \<open>
  Claim C2 says that the first \<^verbatim>\<open>get\<close> on a freshly constructed counter returns 0. The
  constructor does not initialise \<^verbatim>\<open>value_\<close>: on storage that held 7, the first \<^verbatim>\<open>get\<close>
  returns 7.
\<close>

theorem ctor_leaves_value_uninitialised:
  "get (ThreadSafeCounter_ctor 7) = Some (7, ThreadSafeCounter_ctor 7)"
  by (simp add: get_def lock_shared_def unlock_shared_def ThreadSafeCounter_ctor_def
      shared_mutex_ctor_def)

subsection \<open>Increment\<close>

text \<open>
  Claim C3, as the code has it. A call of \<^verbatim>\<open>increment\<close> returns when the lock is free, and
  whenever it returns, the value it leaves is the value \<open>v\<close> it found plus 1, modulo
  \<open>2 ^ 32\<close>: that is \<open>v + 1\<close> whenever \<open>v < 2 ^ 32 - 1\<close>. The other member, the lock, is
  as it was before the call.
\<close>

theorem increment_adds_one_mod:
  "(unlocked (mutex_m c) \<longrightarrow> (\<exists>c'. increment c = Some c')) \<and>
   (\<forall>c'. increment c = Some c' \<longrightarrow>
      unat (value_m c') = (unat (value_m c) + 1) mod 2 ^ 32 \<and>
      (unat (value_m c) < 2 ^ 32 - 1 \<longrightarrow> unat (value_m c') = unat (value_m c) + 1) \<and>
      mutex_m c' = mutex_m c)"
proof (intro conjI impI allI)
  assume "unlocked (mutex_m c)"
  then show "\<exists>c'. increment c = Some c'" by (simp add: increment_unlocked)
next
  fix c' assume "increment c = Some c'"
  then have c': "c' = c\<lparr>value_m := value_m c + 1\<rparr>" by (simp add: increment_Some)
  then show m: "unat (value_m c') = (unat (value_m c) + 1) mod 2 ^ 32"
    by (simp add: unat_word_ariths)
  from c' show "mutex_m c' = mutex_m c" by simp
  assume "unat (value_m c) < 2 ^ 32 - 1"
  with m show "unat (value_m c') = unat (value_m c) + 1" by simp
qed

theorem increment_adds_one_mod_witness:
  "unlocked (mutex_m (ThreadSafeCounter_ctor 41)) \<and>
   increment (ThreadSafeCounter_ctor 41) = Some (ThreadSafeCounter_ctor 42) \<and>
   unat (value_m (ThreadSafeCounter_ctor 41)) < 2 ^ 32 - 1 \<and>
   unat (value_m (ThreadSafeCounter_ctor 42)) = unat (value_m (ThreadSafeCounter_ctor 41)) + 1 \<and>
   mutex_m (ThreadSafeCounter_ctor 42) = mutex_m (ThreadSafeCounter_ctor 41)"
  using increment_adds_one_mod [of "ThreadSafeCounter_ctor 41"]
  by (simp add: ThreadSafeCounter_ctor_def shared_mutex_ctor_def unlocked_def increment_def
      lock_def unlock_def)

text \<open>
  Claim C3 as it is written, for every counter state, fails at the value
  \<open>2 ^ 32 - 1 = 4294967295\<close>: there the call leaves the value 0, not 4294967296.
\<close>

theorem increment_adds_one_counterexample:
  "map_option (\<lambda>c'. unat (value_m c')) (increment (ThreadSafeCounter_ctor 4294967295)) = Some 0
   \<and> map_option (\<lambda>c'. unat (value_m c')) (increment (ThreadSafeCounter_ctor 4294967295))
     \<noteq> Some (unat (value_m (ThreadSafeCounter_ctor 4294967295)) + 1)"
  by (simp add: ThreadSafeCounter_ctor_def shared_mutex_ctor_def increment_def lock_def
      unlock_def)

subsection \<open>Reset\<close>

text \<open>
  Claim C4, as the code has it. A call of \<^verbatim>\<open>reset\<close> returns when the lock is free, and
  whenever it returns, the value is 0, the next \<^verbatim>\<open>get\<close> returns 0, and \<open>J\<close> calls of
  \<^verbatim>\<open>increment\<close> followed by \<^verbatim>\<open>get\<close> all return, with the result \<open>J\<close> modulo \<open>2 ^ 32\<close>: the
  increments continue from 0, and the result is exactly \<open>J\<close> whenever \<open>J < 2 ^ 32\<close>.
\<close>

theorem reset_then_count_mod:
  "(unlocked (mutex_m c) \<longrightarrow> (\<exists>c0. reset c = Some c0)) \<and>
   (\<forall>c0. reset c = Some c0 \<longrightarrow>
      value_m c0 = 0 \<and> get c0 = Some (0, c0) \<and>
      (\<exists>c1 r c2. increment_counter J c0 = Some c1 \<and> get c1 = Some (r, c2)
         \<and> unat r = J mod 2 ^ 32 \<and> (J < 2 ^ 32 \<longrightarrow> unat r = J)))"
proof (intro conjI impI allI)
  assume "unlocked (mutex_m c)"
  then show "\<exists>c0. reset c = Some c0" by (simp add: reset_unlocked)
next
  fix c0 assume r: "reset c = Some c0"
  then have u: "unlocked (mutex_m c)" and c0: "c0 = c\<lparr>value_m := 0\<rparr>"
    by (simp_all add: reset_Some)
  show v: "value_m c0 = 0" using c0 by simp
  have u0: "unlocked (mutex_m c0)" using u c0 by simp
  then have x: "\<not> exclusive (mutex_m c0)" by (simp add: unlocked_def)
  show "get c0 = Some (0, c0)" using get_no_writer [OF x] v by simp
  let ?c1 = "c0\<lparr>value_m := value_m c0 + of_nat J\<rparr>"
  have 1: "increment_counter J c0 = Some ?c1"
    using u0 by (rule increment_counter_unlocked)
  have "\<not> exclusive (mutex_m ?c1)" using x by simp
  then have 2: "get ?c1 = Some (value_m ?c1, ?c1)" by (rule get_no_writer)
  have 3: "unat (value_m ?c1) = J mod 2 ^ 32"
    using v by (simp add: unat_of_nat)
  then have 4: "J < 2 ^ 32 \<longrightarrow> unat (value_m ?c1) = J" by simp
  from 1 2 3 4 show "\<exists>c1 r c2. increment_counter J c0 = Some c1 \<and> get c1 = Some (r, c2)
         \<and> unat r = J mod 2 ^ 32 \<and> (J < 2 ^ 32 \<longrightarrow> unat r = J)" by blast
qed

theorem reset_then_count_mod_witness:
  "unlocked (mutex_m (ThreadSafeCounter_ctor 9)) \<and>
   reset (ThreadSafeCounter_ctor 9) = Some (ThreadSafeCounter_ctor 0) \<and>
   value_m (ThreadSafeCounter_ctor 0) = 0 \<and>
   get (ThreadSafeCounter_ctor 0) = Some (0, ThreadSafeCounter_ctor 0) \<and>
   (\<exists>c1 r c2. increment_counter 2 (ThreadSafeCounter_ctor 0) = Some c1 \<and> get c1 = Some (r, c2)
      \<and> unat r = 2 mod 2 ^ 32 \<and> unat r = 2)"
proof -
  have u: "unlocked (mutex_m (ThreadSafeCounter_ctor 9))"
    by (simp add: ThreadSafeCounter_ctor_def shared_mutex_ctor_def unlocked_def)
  have r: "reset (ThreadSafeCounter_ctor 9) = Some (ThreadSafeCounter_ctor 0)"
    by (simp add: reset_def lock_def unlock_def ThreadSafeCounter_ctor_def shared_mutex_ctor_def)
  from reset_then_count_mod [of "ThreadSafeCounter_ctor 9" 2] u r show ?thesis by simp
qed

text \<open>
  Claim C4 as it is written fails at \<open>J = 2 ^ 32\<close>: after a reset and 4294967296
  increments, \<^verbatim>\<open>get\<close> returns 0.
\<close>

theorem reset_then_count_counterexample:
  "map_option (\<lambda>(r, c). unat r)
     (Option.bind (Option.bind (reset (ThreadSafeCounter_ctor 5))
        (increment_counter 4294967296)) get) = Some 0
   \<and> map_option (\<lambda>(r, c). unat r)
     (Option.bind (Option.bind (reset (ThreadSafeCounter_ctor 5))
        (increment_counter 4294967296)) get) \<noteq> Some 4294967296"
proof -
  have r: "reset (ThreadSafeCounter_ctor 5) = Some (ThreadSafeCounter_ctor 0)"
    by (simp add: reset_def lock_def unlock_def ThreadSafeCounter_ctor_def shared_mutex_ctor_def)
  have g: "get (ThreadSafeCounter_ctor 0) = Some (0, ThreadSafeCounter_ctor 0)"
    by (simp add: get_no_writer ThreadSafeCounter_ctor_def shared_mutex_ctor_def)
  show ?thesis by (simp add: r increment_counter_wraps_round g)
qed

subsection \<open>Get\<close>

text \<open>
  Claim C5. A call of \<^verbatim>\<open>get\<close> returns when no writer holds the lock, and whenever it
  returns, its result is the stored value \<open>v\<close>, the stored value is still \<open>v\<close> and the
  lock is as it was before the call.
\<close>

theorem get_reads_value:
  "(\<not> exclusive (mutex_m c) \<longrightarrow> (\<exists>r c'. get c = Some (r, c'))) \<and>
   (\<forall>r c'. get c = Some (r, c') \<longrightarrow>
      r = value_m c \<and> value_m c' = value_m c \<and> mutex_m c' = mutex_m c)"
proof (intro conjI impI allI)
  assume "\<not> exclusive (mutex_m c)"
  then show "\<exists>r c'. get c = Some (r, c')" by (simp add: get_no_writer)
next
  fix r c' assume "get c = Some (r, c')"
  then have "r = value_m c \<and> c' = c" by (simp add: get_Some)
  then show "r = value_m c" and "value_m c' = value_m c" and "mutex_m c' = mutex_m c"
    by simp_all
qed

theorem get_reads_value_witness:
  "\<not> exclusive (mutex_m (ThreadSafeCounter_ctor 12)) \<and>
   get (ThreadSafeCounter_ctor 12) = Some (12, ThreadSafeCounter_ctor 12) \<and>
   12 = value_m (ThreadSafeCounter_ctor 12)"
  using get_reads_value [of "ThreadSafeCounter_ctor 12"]
  by (simp add: ThreadSafeCounter_ctor_def shared_mutex_ctor_def get_def lock_shared_def
      unlock_shared_def)

subsection \<open>Wrap-around\<close>

text \<open>
  Claim C9. The stored value is below \<open>2 ^ 32\<close>; a call of \<^verbatim>\<open>increment\<close> returns when the
  lock is free, and whenever it returns, the new value is the old one plus 1 modulo
  \<open>2 ^ 32\<close>: from \<open>2 ^ 32 - 1\<close> the value becomes 0.
\<close>

theorem increment_wraps:
  "unat (value_m c) < 2 ^ 32 \<and>
   (unlocked (mutex_m c) \<longrightarrow> (\<exists>c'. increment c = Some c')) \<and>
   (\<forall>c'. increment c = Some c' \<longrightarrow>
      unat (value_m c') = (unat (value_m c) + 1) mod 2 ^ 32 \<and>
      (unat (value_m c) = 2 ^ 32 - 1 \<longrightarrow> value_m c' = 0))"
proof (intro conjI impI allI)
  show "unat (value_m c) < 2 ^ 32" using unsigned_less [of "value_m c"] by simp
next
  assume "unlocked (mutex_m c)"
  then show "\<exists>c'. increment c = Some c'" by (simp add: increment_unlocked)
next
  fix c' assume "increment c = Some c'"
  then have c': "c' = c\<lparr>value_m := value_m c + 1\<rparr>" by (simp add: increment_Some)
  then show m: "unat (value_m c') = (unat (value_m c) + 1) mod 2 ^ 32"
    by (simp add: unat_word_ariths)
  assume "unat (value_m c) = 2 ^ 32 - 1"
  with m have "unat (value_m c') = 0" by simp
  then show "value_m c' = 0" by (simp add: unat_eq_0)
qed

theorem increment_wraps_witness:
  "unlocked (mutex_m (ThreadSafeCounter_ctor 4294967295)) \<and>
   unat (value_m (ThreadSafeCounter_ctor 4294967295)) = 2 ^ 32 - 1 \<and>
   increment (ThreadSafeCounter_ctor 4294967295) = Some (ThreadSafeCounter_ctor 0) \<and>
   value_m (ThreadSafeCounter_ctor 0) = 0"
  using increment_wraps [of "ThreadSafeCounter_ctor 4294967295"]
  by (simp add: ThreadSafeCounter_ctor_def shared_mutex_ctor_def unlocked_def increment_def
      lock_def unlock_def)

section \<open>Properties of the threads\<close>

subsection \<open>Counting the threads inside a critical section\<close>

lemma length_filter_update:
  "i < length xs \<Longrightarrow>
   length (filter P (xs[i := y])) + (if P (xs ! i) then 1 else 0)
     = length (filter P xs) + (if P y then 1 else 0)"
proof (induction xs arbitrary: i)
  case Nil
  then show ?case by simp
next
  case (Cons x xs)
  then show ?case by (cases i) auto
qed

lemma writers_update:
  "i < length (threads s) \<Longrightarrow>
   writers \<lparr>counter = c, threads = (threads s)[i := t]\<rparr>
     + (if in_writer (pc (threads s ! i)) then 1 else 0)
   = writers s + (if in_writer (pc t) then 1 else 0)"
  unfolding writers_def
  using length_filter_update [of i "threads s" "\<lambda>t. in_writer (pc t)" t]
  by simp

lemma readers_update:
  "i < length (threads s) \<Longrightarrow>
   readers \<lparr>counter = c, threads = (threads s)[i := t]\<rparr>
     + (if in_reader (pc (threads s ! i)) then 1 else 0)
   = readers s + (if in_reader (pc t) then 1 else 0)"
  unfolding readers_def
  using length_filter_update [of i "threads s" "\<lambda>t. in_reader (pc t)" t]
  by simp

lemma one_in_filter:
  "j < length xs \<Longrightarrow> P (xs ! j) \<Longrightarrow> 1 \<le> length (filter P xs)"
  by (metis One_nat_def Suc_leI filter_empty_conv length_greater_0_conv nth_mem)

lemma two_in_filter:
  "i < length xs \<Longrightarrow> j < length xs \<Longrightarrow> i \<noteq> j \<Longrightarrow> P (xs ! i) \<Longrightarrow> P (xs ! j) \<Longrightarrow>
   2 \<le> length (filter P xs)"
proof (induction xs arbitrary: i j)
  case Nil
  then show ?case by simp
next
  case (Cons x xs)
  show ?case
  proof (cases i)
    case 0
    with Cons.prems obtain j' where "j = Suc j'" by (cases j) auto
    with 0 Cons.prems one_in_filter [of j' xs P] show ?thesis by auto
  next
    case (Suc i')
    show ?thesis
    proof (cases j)
      case 0
      with Suc Cons.prems one_in_filter [of i' xs P] show ?thesis by auto
    next
      case (Suc j')
      with \<open>i = Suc i'\<close> Cons.prems Cons.IH [of i' j'] show ?thesis by auto
    qed
  qed
qed

subsection \<open>A call run without interruption is the member function\<close>

text \<open>
  When a thread takes the three steps of a call one after the other, with no step of
  another thread in between, the counter is left as the functions \<open>increment\<close>,
  \<open>reset\<close> and \<open>get\<close> of the counter leave it, and a call of \<^verbatim>\<open>get\<close> records the value
  that \<open>get\<close> returns.
\<close>

lemma increment_alone:
  assumes "i < length (threads s)" and "pc (threads s ! i) = Outside"
    and "todo (threads s ! i) = Increment # fs" and "increment (counter s) = Some c'"
  shows "run [i, i, i] s
    = \<lparr>counter = c', threads = (threads s)[i := (threads s ! i)\<lparr>todo := fs, pc := Outside\<rparr>]\<rparr>"
  using assms
  by (auto simp: run_def thread_step_def increment_def Let_def split: option.splits)

lemma reset_alone:
  assumes "i < length (threads s)" and "pc (threads s ! i) = Outside"
    and "todo (threads s ! i) = Reset # fs" and "reset (counter s) = Some c'"
  shows "run [i, i, i] s
    = \<lparr>counter = c', threads = (threads s)[i := (threads s ! i)\<lparr>todo := fs, pc := Outside\<rparr>]\<rparr>"
  using assms
  by (auto simp: run_def thread_step_def reset_def Let_def split: option.splits)

lemma get_alone:
  assumes "i < length (threads s)" and "pc (threads s ! i) = Outside"
    and "todo (threads s ! i) = Get # fs" and "get (counter s) = Some (r, c')"
  shows "run [i, i, i] s
    = \<lparr>counter = c',
       threads = (threads s)
         [i := (threads s ! i)\<lparr>todo := fs, got := r # got (threads s ! i), pc := Outside\<rparr>]\<rparr>"
  using assms
  by (auto simp: run_def thread_step_def get_def Let_def split: option.splits)

subsection \<open>The lock agrees with the threads in every interleaving\<close>

lemma lock_agrees_init: "lock_agrees (system_init mem progs)"
  by (simp add: lock_agrees_def system_init_def writers_def readers_def
      ThreadSafeCounter_ctor_def shared_mutex_ctor_def o_def)

lemma lock_agrees_step:
  assumes "lock_agrees s"
  shows "lock_agrees (thread_step i s)"
proof (cases "length (threads s) \<le> i")
  case True
  then show ?thesis using assms by (simp add: thread_step_def)
next
  case False
  then have i: "i < length (threads s)" by simp
  let ?t = "threads s ! i"
  let ?c = "counter s"
  show ?thesis
  proof (cases "pc ?t")
    case Outside
    show ?thesis
    proof (cases "todo ?t")
      case Nil
      with Outside i assms show ?thesis by (simp add: thread_step_def)
    next
      case (Cons f fs)
      show ?thesis
      proof (cases "acquire f (mutex_m ?c)")
        case None
        with Outside Cons i assms show ?thesis by (simp add: thread_step_def)
      next
        case (Some m)
        let ?t' = "?t\<lparr>pc := Entered f, todo := fs\<rparr>"
        have s': "thread_step i s
            = \<lparr>counter = ?c\<lparr>mutex_m := m\<rparr>, threads = (threads s)[i := ?t']\<rparr>"
          using Outside Cons Some i by (simp add: thread_step_def Let_def)
        from writers_update [OF i, of "?c\<lparr>mutex_m := m\<rparr>" ?t']
          readers_update [OF i, of "?c\<lparr>mutex_m := m\<rparr>" ?t'] Outside Some assms
        show ?thesis unfolding s'
          by (cases f) (auto simp: lock_agrees_def lock_def lock_shared_def split: if_splits)
      qed
    qed
  next
    case (Entered f)
    obtain c' t' where b: "body f ?c ?t = (c', t')" by (cases "body f ?c ?t")
    then have m: "mutex_m c' = mutex_m ?c" and p: "pc t' = pc ?t" by (cases f; auto)+
    have s': "thread_step i s
        = \<lparr>counter = c', threads = (threads s)[i := t'\<lparr>pc := Leaving f\<rparr>]\<rparr>"
      using Entered b i by (simp add: thread_step_def Let_def)
    from writers_update [OF i, of c' "t'\<lparr>pc := Leaving f\<rparr>"]
      readers_update [OF i, of c' "t'\<lparr>pc := Leaving f\<rparr>"] Entered m assms
    show ?thesis unfolding s'
      by (cases f) (auto simp: lock_agrees_def split: if_splits)
  next
    case (Leaving f)
    let ?t' = "?t\<lparr>pc := Outside\<rparr>"
    let ?c' = "?c\<lparr>mutex_m := release f (mutex_m ?c)\<rparr>"
    have s': "thread_step i s = \<lparr>counter = ?c', threads = (threads s)[i := ?t']\<rparr>"
      using Leaving i by (simp add: thread_step_def Let_def)
    from writers_update [OF i, of ?c' ?t'] readers_update [OF i, of ?c' ?t'] Leaving assms
    show ?thesis unfolding s'
      by (cases f) (auto simp: lock_agrees_def unlock_def unlock_shared_def split: if_splits)
  qed
qed

lemma lock_agrees_run: "lock_agrees s \<Longrightarrow> lock_agrees (run sched s)"
  by (induction sched arbitrary: s) (simp_all add: run_def lock_agrees_step)

lemma lock_agrees_writers: "lock_agrees s \<Longrightarrow> writers s \<le> 1"
  by (simp add: lock_agrees_def split: if_splits)

subsection \<open>Mutual exclusion of the writers\<close>

text \<open>
  Claim C6. Whatever calls the threads make on the one counter and however their steps
  interleave, in every state that is reached at most one thread is inside the body of
  \<^verbatim>\<open>increment\<close> or \<^verbatim>\<open>reset\<close>: the number of threads inside a writer's critical section never
  exceeds 1, and two threads that are inside at the same instant are the same thread.
\<close>

theorem writers_mutually_exclusive:
  "writers (run sched (system_init mem progs)) \<le> 1 \<and>
   (\<forall>i j. i < length (threads (run sched (system_init mem progs))) \<and>
          j < length (threads (run sched (system_init mem progs))) \<and>
          in_writer (pc (threads (run sched (system_init mem progs)) ! i)) \<and>
          in_writer (pc (threads (run sched (system_init mem progs)) ! j)) \<longrightarrow> i = j)"
proof -
  let ?s = "run sched (system_init mem progs)"
  have "lock_agrees ?s" by (simp add: lock_agrees_run lock_agrees_init)
  then have w: "writers ?s \<le> 1" by (rule lock_agrees_writers)
  have "i = j" if "i < length (threads ?s)" "j < length (threads ?s)"
      "in_writer (pc (threads ?s ! i))" "in_writer (pc (threads ?s ! j))" for i j
  proof (rule ccontr)
    assume "i \<noteq> j"
    from two_in_filter [of i "threads ?s" j "\<lambda>t. in_writer (pc t)", OF that(1,2) this that(3,4)]
    have "2 \<le> writers ?s" by (simp add: writers_def)
    with w show False by simp
  qed
  with w show ?thesis by blast
qed

text \<open>
  Two threads, one about to call \<^verbatim>\<open>increment\<close> and one about to call \<^verbatim>\<open>reset\<close>. Thread 0
  takes a step and is inside \<^verbatim>\<open>increment\<close>; thread 1 then tries twice to enter \<^verbatim>\<open>reset\<close> and is
  kept outside.
\<close>

theorem writers_mutually_exclusive_witness:
  "0 < length (threads (run [0, 1, 1] (system_init 0 [[Increment], [Reset]]))) \<and>
   in_writer (pc (threads (run [0, 1, 1] (system_init 0 [[Increment], [Reset]])) ! 0)) \<and>
   pc (threads (run [0, 1, 1] (system_init 0 [[Increment], [Reset]])) ! 1) = Outside \<and>
   writers (run [0, 1, 1] (system_init 0 [[Increment], [Reset]])) = 1 \<and>
   writers (run [0, 1, 1] (system_init 0 [[Increment], [Reset]])) \<le> 1"
proof -
  have r: "run [0, 1, 1] (system_init 0 [[Increment], [Reset]])
      = \<lparr>counter = \<lparr>mutex_m = \<lparr>exclusive = True, shared = 0\<rparr>, value_m = 0\<rparr>,
         threads = [\<lparr>pc = Entered Increment, todo = [], got = []\<rparr>,
                    \<lparr>pc = Outside, todo = [Reset], got = []\<rparr>]\<rparr>"
    by (simp add: run_def thread_step_def system_init_def ThreadSafeCounter_ctor_def
        shared_mutex_ctor_def lock_def Let_def)
  from writers_mutually_exclusive [of "[0, 1, 1]" 0 "[[Increment], [Reset]]"] show ?thesis
    unfolding r by (simp add: writers_def)
qed

section \<open>Properties of the interval timer\<close>

subsection \<open>The conversion of a duration\<close>

lemma duration_cast_count:
  "count (duration_cast T d) = d * int (CF_num T) sdiv int (CF_den T)"
  by (simp add: duration_cast_def)

lemma duration_cast_zero: "duration_cast T 0 = Duration 0"
  by (simp add: duration_cast_def)

text \<open>
  Truncation towards zero: the magnitude of the result is the magnitude of the exact
  quotient rounded down, and its sign is the sign of the duration.
\<close>

lemma duration_cast_truncates:
  "count (duration_cast T d) = sgn d * (\<bar>d\<bar> * int (CF_num T) div int (CF_den T))"
  apply (cases "CF_num T = 0"; cases "CF_den T = 0"; cases "d = 0")
         apply (simp_all add: duration_cast_count signed_divide_int_def abs_mult sgn_mult)
  done


subsection \<open>The timers a program can build\<close>

lemma timer_calls_snoc: "timer_calls now0 (cs @ [c]) = timer_call (timer_calls now0 cs) c"
  by (simp add: timer_calls_def)

text \<open>
  With a monotonic clock the readings taken by the constructor and by the calls that follow
  never decrease. Then the end point of the timer is never before its start point: an
  elapsed interval is not negative.
\<close>

lemma timer_calls_start_le_end:
  "sorted (now0 # map reading cs) \<Longrightarrow>
   start_m (timer_calls now0 cs) \<le> end_m (timer_calls now0 cs) \<and>
   end_m (timer_calls now0 cs) \<in> set (now0 # map reading cs)"
proof (induction cs rule: rev_induct)
  case Nil
  then show ?case by (simp add: timer_calls_def Timer_ctor_def)
next
  case (snoc c cs)
  from snoc.prems have s: "sorted (now0 # map reading cs)" and
    le: "\<forall>x \<in> set (now0 # map reading cs). x \<le> reading c"
    by (auto simp: sorted_append)
  from snoc.IH [OF s] le show ?case
    by (cases c) (auto simp: timer_calls_snoc tic_def toc_def)
qed

subsection \<open>Tic\<close>

text \<open>
  Claim C7. \<^verbatim>\<open>tic\<close> returns the timer it was called on with both its start point and its
  end point set to the one reading of the clock the call took; read right after the call,
  before any \<^verbatim>\<open>toc\<close>, the elapsed duration is zero in every unit, through \<^verbatim>\<open>get_duration\<close> and
  through \<^verbatim>\<open>tics\<close>.
\<close>

theorem tic_resets:
  "start_m (tic t now) = now \<and> end_m (tic t now) = now \<and>
   get_duration T (tic t now) = Duration 0 \<and> tics T (tic t now) = 0"
  by (simp add: tic_def get_duration_def tics_def duration_cast_zero static_cast_double_def)

subsection \<open>Reading a timer that was never stopped\<close>

text \<open>
  Claim C8. A newly constructed timer has its end point equal to its start point, and the
  two accessors return a zero duration, computed from the difference of the two points.
  The accessors are \<^verbatim>\<open>const\<close> member functions modelled as functions of the timer: a call has
  a result and no other effect, so no number of calls changes the timer.
\<close>

theorem new_timer_reads_zero:
  "end_m (Timer_ctor now) = start_m (Timer_ctor now) \<and>
   end_m (Timer_ctor now) - start_m (Timer_ctor now) = 0 \<and>
   get_duration T (Timer_ctor now) = Duration 0 \<and> tics T (Timer_ctor now) = 0"
  by (simp add: Timer_ctor_def get_duration_def tics_def duration_cast_zero
      static_cast_double_def)

subsection \<open>Truncation\<close>







end
